theory Spec2Isabelle
  imports Main
begin

section \<open>Errors\<close>

text \<open>
  Go errors as values. \<open>errors_New\<close> is \<^verbatim>\<open>errors.New(msg)\<close>, \<open>Errorf\<close> is
  \<^verbatim>\<open>fmt.Errorf(prefix + "%v", err)\<close> (the prefix and the wrapped error), and
  \<open>Aggregate\<close> is the value \<^verbatim>\<open>kerrors.NewAggregate\<close> builds from a non-empty list.
\<close>

datatype error =
    errors_New string
  | Errorf string error
  | Aggregate "error list"

section \<open>Scanner: getReposForPrivateOrg\<close>

text \<open>
  \<^verbatim>\<open>map[string]sets.String\<close>: a Go map from organization to a set of repository
  names. A \<^verbatim>\<open>sets.String\<close> holds every name at most once, as a HOL set does.
\<close>

type_synonym OrgRepoSet = "string \<rightharpoonup> string set"

text \<open>
  \<^verbatim>\<open>config.Info\<close> of the external package: the callback reads \<^verbatim>\<open>i.Org\<close> and
  \<^verbatim>\<open>i.Repo\<close>; \<open>Branch\<close> tells apart the several configuration files one
  repository has.
\<close>

record Info =
  Org :: string
  Repo :: string
  Branch :: string

text \<open>
  What the external directory walker meets, in the order of the walk: a configuration
  file it parsed, handed to the callback with its \<open>Info\<close>, or a traversal or parsing
  failure. The build configuration itself is opaque (type \<open>'c\<close>); the promotion
  predicate \<^verbatim>\<open>promotion.BuildsOfficialImages\<close> is a parameter of the model.
\<close>

datatype 'c dir_entry = ConfigFile 'c Info | Failure error

text \<open>
  \<^verbatim>\<open>config.OperateOnCIOperatorConfigDir(dir, callback)\<close>: the callback runs on every
  parsed file in turn, the closure's captured variable threaded as state \<open>'s\<close>; the
  walk stops with the error at the first failure of the walk or of the callback.
\<close>

fun OperateOnCIOperatorConfigDir ::
  "'c dir_entry list \<Rightarrow> ('c \<Rightarrow> Info \<Rightarrow> 's \<Rightarrow> 's \<times> error option) \<Rightarrow> 's \<Rightarrow> 's \<times> error option"
where
  "OperateOnCIOperatorConfigDir [] cb s = (s, None)"
| "OperateOnCIOperatorConfigDir (Failure e # rest) cb s = (s, Some e)"
| "OperateOnCIOperatorConfigDir (ConfigFile c i # rest) cb s =
     (case cb c i s of
        (s', Some e) \<Rightarrow> (s', Some e)
      | (s', None) \<Rightarrow> OperateOnCIOperatorConfigDir rest cb s')"

text \<open>
  The body of the inner whitelist loop (lines 167--171):
  \<^verbatim>\<open>if _, ok := ret[org]; !ok { ret[org] = sets.NewString(repo) } else { ret[org].Insert(repo) }\<close>
\<close>

definition whitelist_insert :: "string \<Rightarrow> string \<Rightarrow> OrgRepoSet \<Rightarrow> OrgRepoSet" where
  "whitelist_insert org repo ret =
     (case ret org of
        None \<Rightarrow> ret(org \<mapsto> {repo})
      | Some repos \<Rightarrow> ret(org \<mapsto> insert repo repos))"

text \<open>\<^verbatim>\<open>for _, repo := range repos { ... }\<close> (line 166).\<close>

fun whitelist_repos :: "string \<Rightarrow> string list \<Rightarrow> OrgRepoSet \<Rightarrow> OrgRepoSet" where
  "whitelist_repos org [] ret = ret"
| "whitelist_repos org (repo # repos) ret = whitelist_repos org repos (whitelist_insert org repo ret)"

text \<open>
  \<^verbatim>\<open>for org, repos := range whitelist { ... }\<close> (line 165). The whitelist
  \<^verbatim>\<open>map[string][]string\<close> is given as the list of its entries in the order the
  \<^verbatim>\<open>range\<close> yields them; nothing below depends on that order.
\<close>

fun whitelist_orgs :: "(string \<times> string list) list \<Rightarrow> OrgRepoSet \<Rightarrow> OrgRepoSet" where
  "whitelist_orgs [] ret = ret"
| "whitelist_orgs ((org, repos) # whitelist) ret = whitelist_orgs whitelist (whitelist_repos org repos ret)"

text \<open>The closure \<^verbatim>\<open>callback\<close> (lines 175--187); \<open>ret\<close> is the captured map.\<close>

definition callback :: "('c \<Rightarrow> bool) \<Rightarrow> 'c \<Rightarrow> Info \<Rightarrow> OrgRepoSet \<Rightarrow> OrgRepoSet \<times> error option" where
  "callback BuildsOfficialImages c i ret =
     (if \<not> BuildsOfficialImages c then (ret, None)
      else
        let repos = (case ret (Org i) of None \<Rightarrow> {} | Some repos \<Rightarrow> repos)
        in (ret(Org i \<mapsto> insert (Repo i) repos), None))"

text \<open>
  \<^verbatim>\<open>getReposForPrivateOrg(releaseRepoPath, whitelist)\<close> (lines 162--194). The
  directory argument is what the walker meets beneath
  \<^verbatim>\<open>filepath.Join(releaseRepoPath, config.CiopConfigInRepoPath)\<close>. The Go function
  returns the pair \<^verbatim>\<open>(ret, err)\<close>; on a failure it returns \<^verbatim>\<open>ret\<close> as it stands
  next to the wrapped error.
\<close>

definition getReposForPrivateOrg ::
  "('c \<Rightarrow> bool) \<Rightarrow> 'c dir_entry list \<Rightarrow> (string \<times> string list) list \<Rightarrow> OrgRepoSet \<times> error option"
where
  "getReposForPrivateOrg BuildsOfficialImages dir whitelist =
     (let ret = whitelist_orgs whitelist Map.empty
      in case OperateOnCIOperatorConfigDir dir (callback BuildsOfficialImages) ret of
           (ret', Some err) \<Rightarrow>
             (ret', Some (Errorf ''error while operating in ci-operator configuration files: '' err))
         | (ret', None) \<Rightarrow> (ret', None))"

subsection \<open>The org/repo pairs of the data\<close>

definition pairs :: "OrgRepoSet \<Rightarrow> (string \<times> string) set" where
  "pairs ret = {(org, repo). \<exists>repos. ret org = Some repos \<and> repo \<in> repos}"

definition whitelist_pairs :: "(string \<times> string list) list \<Rightarrow> (string \<times> string) set" where
  "whitelist_pairs whitelist = {(org, repo). \<exists>repos. (org, repos) \<in> set whitelist \<and> repo \<in> set repos}"

definition qualifying_pairs :: "('c \<Rightarrow> bool) \<Rightarrow> ('c \<times> Info) list \<Rightarrow> (string \<times> string) set" where
  "qualifying_pairs BuildsOfficialImages scanned =
     {(org, repo). \<exists>c i. (c, i) \<in> set scanned \<and> BuildsOfficialImages c \<and> Org i = org \<and> Repo i = repo}"

text \<open>A walk that parses every file of \<open>scanned\<close> and meets no failure.\<close>

definition configs :: "('c \<times> Info) list \<Rightarrow> 'c dir_entry list" where
  "configs scanned = map (\<lambda>(c, i). ConfigFile c i) scanned"

section \<open>Fetcher: generateRepositories\<close>

text \<open>
  Modelled from the spec: the declaration of \<^verbatim>\<open>github.FullRepo\<close> (package
  prow/github) is not among the sources. These are the fields generateRepositories
  reads (lines 141--152): the name, description, homepage, private flag,
  issues/projects/wiki flags, merge-strategy flags, archived flag and default branch
  that the lookup returns (RemoteRepoMetadata).
\<close>

record FullRepo =
  Name :: string
  Description :: string
  Homepage :: string
  Private :: bool
  HasIssues :: bool
  HasProjects :: bool
  HasWiki :: bool
  AllowMergeCommit :: bool
  AllowSquashMerge :: bool
  AllowRebaseMerge :: bool
  Archived :: bool
  DefaultBranch :: string

text \<open>
  Modelled from the spec: the declaration of \<^verbatim>\<open>org.Repo\<close> (package
  prow/config/org) is not among the sources. The struct literal of lines 141--153
  fills each field with a pointer, so every field is optional: \<open>None\<close> is the nil
  pointer, an omitted field of the OutputRepoRecord. The field names carry the prefix
  \<open>Repo_\<close> to keep them apart from those of \<open>FullRepo\<close>.
\<close>

record org_Repo =
  Repo_Description :: "string option"
  Repo_HomePage :: "string option"
  Repo_Private :: "bool option"
  Repo_HasIssues :: "bool option"
  Repo_HasProjects :: "bool option"
  Repo_HasWiki :: "bool option"
  Repo_AllowMergeCommit :: "bool option"
  Repo_AllowSquashMerge :: "bool option"
  Repo_AllowRebaseMerge :: "bool option"
  Repo_Archived :: "bool option"
  Repo_DefaultBranch :: "string option"

text \<open>
  The interface \<^verbatim>\<open>gitHubClient\<close> (lines 28--30):
  \<^verbatim>\<open>GetRepo(owner, name string) (github.FullRepo, error)\<close>.
\<close>

type_synonym gitHubClient = "string \<Rightarrow> string \<Rightarrow> error + FullRepo"

text \<open>
  \<^verbatim>\<open>logger.WithError(err).Fatal(msg)\<close>: logrus logs the message with the error and
  ends the process with status 1.
\<close>

datatype fatal = Fatal string error

text \<open>
  The two nested \<^verbatim>\<open>range\<close> loops of generateRepositories (lines 132--155), over the
  (org, repo) pairs in the order the loops visit them, \<open>peribolosRepos\<close> threaded
  through. A failed lookup ends the process (line 138); a successful one stores the
  pruned record under \<^verbatim>\<open>fullRepo.Name\<close> (line 141). \<^verbatim>\<open>org.PruneRepoDefaults\<close> is
  a parameter.
\<close>

fun generateRepositories_loop ::
  "gitHubClient \<Rightarrow> (org_Repo \<Rightarrow> org_Repo) \<Rightarrow> (string \<times> string) list \<Rightarrow>
   (string \<rightharpoonup> org_Repo) \<Rightarrow> fatal + (string \<rightharpoonup> org_Repo)"
where
  "generateRepositories_loop gc prune [] peribolosRepos = Inr peribolosRepos"
| "generateRepositories_loop gc prune ((orgName, repo) # rest) peribolosRepos =
     (case gc orgName repo of
        Inl err \<Rightarrow> Inl (Fatal ''couldn't get repo details'' err)
      | Inr fullRepo \<Rightarrow>
          generateRepositories_loop gc prune rest
            (peribolosRepos(Name fullRepo \<mapsto> prune
               \<lparr>Repo_Description = Some (Description fullRepo),
                Repo_HomePage = Some (Homepage fullRepo),
                Repo_Private = Some (Private fullRepo),
                Repo_HasIssues = Some (HasIssues fullRepo),
                Repo_HasProjects = Some (HasProjects fullRepo),
                Repo_HasWiki = Some (HasWiki fullRepo),
                Repo_AllowMergeCommit = Some (AllowMergeCommit fullRepo),
                Repo_AllowSquashMerge = Some (AllowSquashMerge fullRepo),
                Repo_AllowRebaseMerge = Some (AllowRebaseMerge fullRepo),
                Repo_Archived = Some (Archived fullRepo),
                Repo_DefaultBranch = Some (DefaultBranch fullRepo)\<rparr>)))"

text \<open>
  \<^verbatim>\<open>generateRepositories(gc, orgRepos, logger)\<close> (lines 129--158). Go leaves the
  order of a \<^verbatim>\<open>range\<close> over a map open, so the order is a parameter: \<open>order\<close>
  lists the pairs of \<open>orgRepos\<close> as the loops visit them.
\<close>

definition generateRepositories ::
  "gitHubClient \<Rightarrow> (org_Repo \<Rightarrow> org_Repo) \<Rightarrow> (OrgRepoSet \<Rightarrow> (string \<times> string) list) \<Rightarrow>
   OrgRepoSet \<Rightarrow> fatal + (string \<rightharpoonup> org_Repo)"
where
  "generateRepositories gc prune order orgRepos =
     generateRepositories_loop gc prune (order orgRepos) Map.empty"

text \<open>
  A \<^verbatim>\<open>range\<close> over a map visits every entry once: the visits are the pairs of the
  map, none twice.
\<close>

definition ranges_over :: "(string \<times> string) list \<Rightarrow> OrgRepoSet \<Rightarrow> bool" where
  "ranges_over visits orgRepos = (distinct visits \<and> set visits = pairs orgRepos)"

text \<open>
  The lookups the loops issue (line 136): one per visit, up to and including the first
  one that fails.
\<close>

fun GetRepo_calls :: "gitHubClient \<Rightarrow> (string \<times> string) list \<Rightarrow> (string \<times> string) list" where
  "GetRepo_calls gc [] = []"
| "GetRepo_calls gc ((orgName, repo) # rest) =
     (orgName, repo) # (case gc orgName repo of Inl err \<Rightarrow> [] | Inr fullRepo \<Rightarrow> GetRepo_calls gc rest)"

text \<open>
  Modelled from the spec: \<^verbatim>\<open>org.PruneRepoDefaults\<close> (package prow/config/org) is not
  among the sources. The spec: "any field whose value matches the platform's known
  default is omitted from the OutputRepoRecord", the rule being "parameterized by an
  explicit table of {field: default value}". The table is a record of the same shape,
  \<open>None\<close> where a field has no known default.
\<close>

definition prune_field :: "'a option \<Rightarrow> 'a option \<Rightarrow> 'a option" where
  "prune_field dflt v = (if v \<noteq> None \<and> v = dflt then None else v)"

text \<open>
  Modelled from the spec: \<^verbatim>\<open>org.PruneRepoDefaults\<close>, which is not among the
  sources, as the spec describes it: every field of the record is pruned against its
  default in the table.
\<close>

definition PruneRepoDefaults :: "org_Repo \<Rightarrow> org_Repo \<Rightarrow> org_Repo" where
  "PruneRepoDefaults defaults repo =
     \<lparr>Repo_Description = prune_field (Repo_Description defaults) (Repo_Description repo),
      Repo_HomePage = prune_field (Repo_HomePage defaults) (Repo_HomePage repo),
      Repo_Private = prune_field (Repo_Private defaults) (Repo_Private repo),
      Repo_HasIssues = prune_field (Repo_HasIssues defaults) (Repo_HasIssues repo),
      Repo_HasProjects = prune_field (Repo_HasProjects defaults) (Repo_HasProjects repo),
      Repo_HasWiki = prune_field (Repo_HasWiki defaults) (Repo_HasWiki repo),
      Repo_AllowMergeCommit = prune_field (Repo_AllowMergeCommit defaults) (Repo_AllowMergeCommit repo),
      Repo_AllowSquashMerge = prune_field (Repo_AllowSquashMerge defaults) (Repo_AllowSquashMerge repo),
      Repo_AllowRebaseMerge = prune_field (Repo_AllowRebaseMerge defaults) (Repo_AllowRebaseMerge repo),
      Repo_Archived = prune_field (Repo_Archived defaults) (Repo_Archived repo),
      Repo_DefaultBranch = prune_field (Repo_DefaultBranch defaults) (Repo_DefaultBranch repo)\<rparr>"

section \<open>Merger: lines 115--117 of main\<close>

text \<open>
  Modelled from the spec: the declarations of \<^verbatim>\<open>org.Config\<close> and
  \<^verbatim>\<open>org.FullConfig\<close> (package prow/config/org) are not among the sources. An
  organization entry holds "a mapping from repository name to OutputRepoRecord"; its
  remaining fields are one opaque value, \<open>None\<close> when none of them is set (their zero
  value). The document holds the organization entries by name. main indexes and assigns
  \<^verbatim>\<open>peribolosConfig.Orgs[o.destOrg]\<close>, so \<open>Orgs\<close> is a Go map: its zero value, which
  a document without organizations leaves in place, is the nil map (\<open>None\<close>), from which
  a read gives the zero value and into which an assignment panics.
\<close>

record 'x org_Config =
  Repos :: "string \<rightharpoonup> org_Repo"
  other_fields :: "'x option"

text \<open>
  Modelled from the spec: \<^verbatim>\<open>org.FullConfig\<close>, which is not among the sources: the
  document, holding the organization entries by name (\<open>None\<close> is the nil map).
\<close>

record 'x org_FullConfig =
  Orgs :: "(string \<rightharpoonup> 'x org_Config) option"

datatype panic = assignment_to_entry_in_nil_map

text \<open>The zero value of \<^verbatim>\<open>org.Config\<close>: no repository, no other field set.\<close>

definition zero_Config :: "'x org_Config" where
  "zero_Config = \<lparr>Repos = Map.empty, other_fields = None\<rparr>"

text \<open>Reading \<^verbatim>\<open>peribolosConfig.Orgs[key]\<close>: the entry, if the document has one.\<close>

definition org_entry :: "'x org_FullConfig \<Rightarrow> string \<Rightarrow> 'x org_Config option" where
  "org_entry peribolosConfig key = (case Orgs peribolosConfig of None \<Rightarrow> None | Some orgs \<Rightarrow> orgs key)"

text \<open>
  Lines 115--117:
  \<^verbatim>\<open>peribolosConfigByOrg := peribolosConfig.Orgs[o.destOrg]\<close>,
  \<^verbatim>\<open>peribolosConfigByOrg.Repos = peribolosRepos\<close>,
  \<^verbatim>\<open>peribolosConfig.Orgs[o.destOrg] = peribolosConfigByOrg\<close>.
\<close>

definition merge_step ::
  "'x org_FullConfig \<Rightarrow> string \<Rightarrow> (string \<rightharpoonup> org_Repo) \<Rightarrow> panic + 'x org_FullConfig"
where
  "merge_step peribolosConfig destOrg peribolosRepos =
     (let peribolosConfigByOrg =
            (case org_entry peribolosConfig destOrg of None \<Rightarrow> zero_Config | Some entry \<Rightarrow> entry);
          peribolosConfigByOrg = peribolosConfigByOrg\<lparr>Repos := peribolosRepos\<rparr>
      in case Orgs peribolosConfig of
           None \<Rightarrow> Inl assignment_to_entry_in_nil_map
         | Some orgs \<Rightarrow> Inr (peribolosConfig\<lparr>Orgs := Some (orgs(destOrg \<mapsto> peribolosConfigByOrg))\<rparr>))"

section \<open>Options and main\<close>

text \<open>
  The struct \<^verbatim>\<open>options\<close> (lines 32--39). Of the embedded
  \<^verbatim>\<open>config.WhitelistOptions\<close> main reads \<^verbatim>\<open>WhitelistConfig.Whitelist\<close>, of
  \<^verbatim>\<open>flagutil.GitHubOptions\<close> it reads \<^verbatim>\<open>TokenPath\<close>.
\<close>

record options =
  Whitelist :: "(string \<times> string list) list"
  peribolosConfig :: string
  destOrg :: string
  releaseRepoPath :: string
  TokenPath :: string

text \<open>
  What the process does to the outside, in order. \<open>ReadWhitelist\<close> is the reading
  of the whitelist file by the external whitelist validator; the other operations are
  issued by main and generateRepositories.
\<close>

datatype io =
    ReadWhitelist string
  | ReadFile string
  | SecretStart "string list"
  | WalkConfigDir string
  | GetRepo string string
  | WriteFile string string

text \<open>
  The collaborators of main, which the sources do not hold: the two external
  validators (lines 68 and 71), the file system, the YAML library, the secret agent, the
  GitHub client factory, the promotion predicate, the configuration directory under a
  release repository path, the order of a \<^verbatim>\<open>range\<close> over the OrgRepoSet, and
  \<^verbatim>\<open>org.PruneRepoDefaults\<close>.

  Both validators are methods on a part of \<^verbatim>\<open>*o\<close> and may write through the
  pointer. \<^verbatim>\<open>o.github.Validate(false)\<close> gets the GitHub options (here the token
  path) and returns them as it leaves them, with its error. \<^verbatim>\<open>o.Validate()\<close> of the
  embedded \<^verbatim>\<open>config.WhitelistOptions\<close> gets the whitelist as it stands and returns
  the whitelist it leaves, the whitelist file it read to load it (if any), and its
  error: main reads \<^verbatim>\<open>o.WhitelistOptions.WhitelistConfig.Whitelist\<close> at line 109 and
  nothing else of main loads it.
\<close>

record ('c, 'x) world =
  github_Validate :: "string \<Rightarrow> string \<times> error option"
  WhitelistOptions_Validate ::
    "(string \<times> string list) list \<Rightarrow> (string \<times> string list) list \<times> string option \<times> error option"
  ioutil_ReadFile :: "string \<Rightarrow> error + string"
  yaml_Unmarshal :: "string \<Rightarrow> error + 'x org_FullConfig"
  secretAgent_Start :: "string list \<Rightarrow> error option"
  github_GitHubClient :: "error + gitHubClient"
  BuildsOfficialImages :: "'c \<Rightarrow> bool"
  config_dir :: "string \<Rightarrow> 'c dir_entry list"
  range_orgRepos :: "OrgRepoSet \<Rightarrow> (string \<times> string) list"
  org_PruneRepoDefaults :: "org_Repo \<Rightarrow> org_Repo"
  yaml_Marshal :: "'x org_FullConfig \<Rightarrow> error + string"
  ioutil_WriteFile :: "string \<Rightarrow> string \<Rightarrow> error option"

text \<open>
  \<^verbatim>\<open>kerrors.NewAggregate\<close>: nil for an empty list, otherwise one error that holds
  them all.
\<close>

definition NewAggregate :: "error list \<Rightarrow> error option" where
  "NewAggregate errlist = (if errlist = [] then None else Some (Aggregate errlist))"

text \<open>
  \<^verbatim>\<open>validateOptions(o *options)\<close> (lines 56--75). It returns the options as the
  validators leave them, the reading of the whitelist file if the whitelist validator
  did one, and the aggregated error.
\<close>

definition validateOptions :: "('c, 'x) world \<Rightarrow> options \<Rightarrow> options \<times> io list \<times> error option" where
  "validateOptions w opts =
     (let validationErrors = [];
          validationErrors =
            (if length (releaseRepoPath opts) = 0
             then validationErrors @ [errors_New ''--release-repo-path is not specified'']
             else validationErrors);
          validationErrors =
            (if length (peribolosConfig opts) = 0
             then validationErrors @ [errors_New ''--peribolos-config is not specified'']
             else validationErrors);
          validationErrors =
            (if length (destOrg opts) = 0
             then validationErrors @ [errors_New ''--destination-org is not specified'']
             else validationErrors);
          (tokenPath, err) = github_Validate w (TokenPath opts);
          opts = opts\<lparr>TokenPath := tokenPath\<rparr>;
          validationErrors =
            (case err of
               Some err \<Rightarrow> validationErrors @ [err]
             | None \<Rightarrow> validationErrors);
          (whitelist, whitelistFile, err) = WhitelistOptions_Validate w (Whitelist opts);
          opts = opts\<lparr>Whitelist := whitelist\<rparr>;
          validationErrors =
            (case err of
               Some err \<Rightarrow> validationErrors @ [err]
             | None \<Rightarrow> validationErrors)
      in (opts,
          (case whitelistFile of Some path \<Rightarrow> [ReadWhitelist path] | None \<Rightarrow> []),
          NewAggregate validationErrors))"

text \<open>
  How a run ends: the exit status (0 after the write, 1 after a \<^verbatim>\<open>Fatal\<close>, 2 after
  a panic) and what the process did to the outside until then.
\<close>

record run =
  status :: int
  io_trace :: "io list"

fun is_WriteFile :: "io \<Rightarrow> bool" where
  "is_WriteFile (WriteFile path out) = True"
| "is_WriteFile _ = False"

definition writes :: "run \<Rightarrow> io list" where
  "writes r = filter is_WriteFile (io_trace r)"

text \<open>
  \<^verbatim>\<open>main\<close> (lines 77--127), after the flags are parsed. The goroutine of lines
  85--88 only ends the process on an interrupt and is left out. After
  \<^verbatim>\<open>validateOptions(&o)\<close> the options are what the validators left, and \<open>t0\<close> is
  what validation did to the outside. The local variable
  \<^verbatim>\<open>peribolosConfig\<close> is \<open>document\<close> before the merge and \<open>merged\<close> after it
  (the option \<^verbatim>\<open>o.peribolosConfig\<close> is the path of the file).
\<close>

definition main :: "('c, 'x) world \<Rightarrow> options \<Rightarrow> run" where
  "main w opts =
     (case validateOptions w opts of
        (opts, t0, Some err) \<Rightarrow> \<lparr>status = 1, io_trace = t0\<rparr>
      | (opts, t0, None) \<Rightarrow>
     (let t1 = t0 @ [ReadFile (peribolosConfig opts)] in
      case ioutil_ReadFile w (peribolosConfig opts) of
        Inl err \<Rightarrow> \<lparr>status = 1, io_trace = t1\<rparr>
      | Inr b \<Rightarrow>
     (case yaml_Unmarshal w b of
        Inl err \<Rightarrow> \<lparr>status = 1, io_trace = t1\<rparr>
      | Inr document \<Rightarrow>
     (let t2 = t1 @ [SecretStart [TokenPath opts]] in
      case secretAgent_Start w [TokenPath opts] of
        Some err \<Rightarrow> \<lparr>status = 1, io_trace = t2\<rparr>
      | None \<Rightarrow>
     (case github_GitHubClient w of
        Inl err \<Rightarrow> \<lparr>status = 1, io_trace = t2\<rparr>
      | Inr gc \<Rightarrow>
     (let t3 = t2 @ [WalkConfigDir (releaseRepoPath opts)] in
      case getReposForPrivateOrg (BuildsOfficialImages w) (config_dir w (releaseRepoPath opts)) (Whitelist opts) of
        (orgRepos, Some err) \<Rightarrow> \<lparr>status = 1, io_trace = t3\<rparr>
      | (orgRepos, None) \<Rightarrow>
     (let t4 = t3 @ map (\<lambda>(orgName, repo). GetRepo orgName repo)
                      (GetRepo_calls gc (range_orgRepos w orgRepos)) in
      case generateRepositories gc (org_PruneRepoDefaults w) (range_orgRepos w) orgRepos of
        Inl exit \<Rightarrow> \<lparr>status = 1, io_trace = t4\<rparr>
      | Inr peribolosRepos \<Rightarrow>
     (case merge_step document (destOrg opts) peribolosRepos of
        Inl panic \<Rightarrow> \<lparr>status = 2, io_trace = t4\<rparr>
      | Inr merged \<Rightarrow>
     (case yaml_Marshal w merged of
        Inl err \<Rightarrow> \<lparr>status = 1, io_trace = t4\<rparr>
      | Inr out \<Rightarrow>
     (let t5 = t4 @ [WriteFile (peribolosConfig opts) out] in
      case ioutil_WriteFile w (peribolosConfig opts) out of
        Some err \<Rightarrow> \<lparr>status = 1, io_trace = t5\<rparr>
      | None \<Rightarrow> \<lparr>status = 0, io_trace = t5\<rparr>))))))))))"

section \<open>Notions used to state the properties\<close>

text \<open>The struct literal of lines 141--153: the record copied from a lookup's answer.\<close>

abbreviation copied :: "FullRepo \<Rightarrow> org_Repo" where
  "copied fullRepo \<equiv>
     \<lparr>Repo_Description = Some (Description fullRepo),
      Repo_HomePage = Some (Homepage fullRepo),
      Repo_Private = Some (Private fullRepo),
      Repo_HasIssues = Some (HasIssues fullRepo),
      Repo_HasProjects = Some (HasProjects fullRepo),
      Repo_HasWiki = Some (HasWiki fullRepo),
      Repo_AllowMergeCommit = Some (AllowMergeCommit fullRepo),
      Repo_AllowSquashMerge = Some (AllowSquashMerge fullRepo),
      Repo_AllowRebaseMerge = Some (AllowRebaseMerge fullRepo),
      Repo_Archived = Some (Archived fullRepo),
      Repo_DefaultBranch = Some (DefaultBranch fullRepo)\<rparr>"

text \<open>What the lookups return over a sequence of visits.\<close>

definition returned :: "gitHubClient \<Rightarrow> (string \<times> string) list \<Rightarrow> FullRepo set" where
  "returned gc visits = {fullRepo. \<exists>orgName repo. (orgName, repo) \<in> set visits \<and> gc orgName repo = Inr fullRepo}"

section \<open>Example data\<close>

text \<open>
  Concrete inputs for the examples below. A build configuration is reduced to the answer
  of the promotion predicate; \<open>example_defaults\<close> is one table of defaults.
  \<open>GetRepo_by_name\<close> answers every lookup with a repository of the queried name whose
  description is the queried owner. In \<open>example_world\<close> the GitHub validator puts a
  default in place of an empty token path, and the whitelist validator loads the
  whitelist of one repository from the file \<^verbatim>\<open>whitelist.yaml\<close>.
\<close>

definition promotes :: "bool \<Rightarrow> bool" where
  "promotes c = c"

definition origin_master :: Info where
  "origin_master = \<lparr>Org = ''openshift'', Repo = ''origin'', Branch = ''master''\<rparr>"

definition origin_release :: Info where
  "origin_release = \<lparr>Org = ''openshift'', Repo = ''origin'', Branch = ''release-4.1''\<rparr>"

definition installer_master :: Info where
  "installer_master = \<lparr>Org = ''openshift'', Repo = ''installer'', Branch = ''master''\<rparr>"

definition example_defaults :: org_Repo where
  "example_defaults =
     \<lparr>Repo_Description = Some [], Repo_HomePage = Some [], Repo_Private = Some False,
      Repo_HasIssues = Some True, Repo_HasProjects = None, Repo_HasWiki = Some True,
      Repo_AllowMergeCommit = Some True, Repo_AllowSquashMerge = Some True,
      Repo_AllowRebaseMerge = Some True, Repo_Archived = Some False,
      Repo_DefaultBranch = Some ''master''\<rparr>"

definition repo1 :: FullRepo where
  "repo1 =
     \<lparr>Name = ''repo1'', Description = ''x'', Homepage = [], Private = True,
      HasIssues = True, HasProjects = True, HasWiki = True, AllowMergeCommit = True,
      AllowSquashMerge = True, AllowRebaseMerge = True, Archived = False,
      DefaultBranch = ''master''\<rparr>"

definition GetRepo_not_found :: gitHubClient where
  "GetRepo_not_found owner name = Inl (errors_New ''404 Not Found'')"

definition GetRepo_repo1 :: gitHubClient where
  "GetRepo_repo1 owner name = Inr repo1"

definition GetRepo_by_name :: gitHubClient where
  "GetRepo_by_name owner name = Inr (repo1\<lparr>Name := name, Description := owner\<rparr>)"

definition visit_orgA_repo1 :: "OrgRepoSet \<Rightarrow> (string \<times> string) list" where
  "visit_orgA_repo1 orgRepos = [(''orgA'', ''repo1'')]"

definition visit_old_name :: "OrgRepoSet \<Rightarrow> (string \<times> string) list" where
  "visit_old_name orgRepos = [(''orgA'', ''old-name'')]"

definition visit_common :: "OrgRepoSet \<Rightarrow> (string \<times> string) list" where
  "visit_common orgRepos = [(''orgA'', ''common''), (''orgB'', ''common'')]"

definition common_orgRepos :: OrgRepoSet where
  "common_orgRepos = [''orgA'' \<mapsto> {''common''}, ''orgB'' \<mapsto> {''common''}]"

definition example_world :: "gitHubClient \<Rightarrow> (bool, unit) world" where
  "example_world gc =
     \<lparr>github_Validate =
        (\<lambda>tokenPath. (if tokenPath = [] then ''/etc/github/oauth'' else tokenPath, None)),
      WhitelistOptions_Validate =
        (\<lambda>whitelist. ([(''orgA'', [''repo1''])], Some ''whitelist.yaml'', None)),
      ioutil_ReadFile = (\<lambda>path. Inr ''orgs: {}''),
      yaml_Unmarshal = (\<lambda>b. Inr \<lparr>Orgs = Some Map.empty\<rparr>),
      secretAgent_Start = (\<lambda>paths. None),
      github_GitHubClient = Inr gc,
      BuildsOfficialImages = promotes,
      config_dir = (\<lambda>path. []),
      range_orgRepos = visit_orgA_repo1,
      org_PruneRepoDefaults = PruneRepoDefaults example_defaults,
      yaml_Marshal = (\<lambda>document. Inr ''orgs: ...''),
      ioutil_WriteFile = (\<lambda>path out. None)\<rparr>"

definition example_options :: options where
  "example_options =
     \<lparr>Whitelist = [], peribolosConfig = ''peribolos.yaml'',
      destOrg = ''orgA'', releaseRepoPath = ''release'', TokenPath = ''/etc/github/oauth''\<rparr>"

definition no_options :: options where
  "no_options =
     \<lparr>Whitelist = [], peribolosConfig = [], destOrg = [], releaseRepoPath = [], TokenPath = []\<rparr>"

definition two_orgs :: "unit org_FullConfig" where
  "two_orgs =
     \<lparr>Orgs = Some [''orgA'' \<mapsto> \<lparr>Repos = Map.empty, other_fields = Some ()\<rparr>,
                    ''orgB'' \<mapsto> \<lparr>Repos = [''kept'' \<mapsto> example_defaults], other_fields = Some ()\<rparr>]\<rparr>"

text \<open>The same world, but the configuration file is the document \<^verbatim>\<open>{}\<close>.\<close>

definition empty_document_world :: "(bool, unit) world" where
  "empty_document_world =
     (example_world GetRepo_repo1)
       \<lparr>ioutil_ReadFile := (\<lambda>path. Inr ''{}''), yaml_Unmarshal := (\<lambda>b. Inr \<lparr>Orgs = None\<rparr>)\<rparr>"

section \<open>Properties\<close>

subsection \<open>Properties of the scanner\<close>

lemma pairs_empty: "pairs Map.empty = {}"
  by (simp add: pairs_def)

lemma pairs_whitelist_insert:
  "pairs (whitelist_insert org repo ret) = insert (org, repo) (pairs ret)"
  by (auto simp: whitelist_insert_def pairs_def split: option.splits if_splits)

lemma pairs_whitelist_repos:
  "pairs (whitelist_repos org repos ret) = pairs ret \<union> {org} \<times> set repos"
  by (induction repos arbitrary: ret) (auto simp: pairs_whitelist_insert)

lemma whitelist_pairs_Nil: "whitelist_pairs [] = {}"
  by (simp add: whitelist_pairs_def)

lemma whitelist_pairs_Cons:
  "whitelist_pairs ((org, repos) # whitelist) = {org} \<times> set repos \<union> whitelist_pairs whitelist"
  by (auto simp: whitelist_pairs_def)

lemma pairs_whitelist_orgs:
  "pairs (whitelist_orgs whitelist ret) = pairs ret \<union> whitelist_pairs whitelist"
proof (induction whitelist arbitrary: ret)
  case Nil
  show ?case by (simp add: whitelist_pairs_Nil)
next
  case (Cons entry whitelist)
  obtain org repos where entry: "entry = (org, repos)" by (cases entry)
  show ?case
    unfolding entry whitelist_orgs.simps Cons.IH pairs_whitelist_repos whitelist_pairs_Cons
    by blast
qed

lemma callback_no_error: "snd (callback B c i ret) = None"
  by (simp add: callback_def Let_def)

lemma pairs_callback:
  "pairs (fst (callback B c i ret)) = pairs ret \<union> (if B c then {(Org i, Repo i)} else {})"
  by (auto simp: callback_def Let_def pairs_def split: option.splits if_splits)

lemma qualifying_pairs_Nil: "qualifying_pairs B [] = {}"
  by (simp add: qualifying_pairs_def)

lemma qualifying_pairs_Cons:
  "qualifying_pairs B ((c, i) # scanned) =
     (if B c then {(Org i, Repo i)} else {}) \<union> qualifying_pairs B scanned"
  by (auto simp: qualifying_pairs_def)

text \<open>
  The walk over parsed files followed by anything: the callback never fails, so the walk
  reaches whatever follows the parsed files with the qualifying pairs added.
\<close>

lemma walk_configs_append:
  "OperateOnCIOperatorConfigDir (configs scanned @ rest) (callback B) ret =
     OperateOnCIOperatorConfigDir rest (callback B)
       (fst (OperateOnCIOperatorConfigDir (configs scanned) (callback B) ret))"
proof (induction scanned arbitrary: ret)
  case Nil
  show ?case by (simp add: configs_def)
next
  case (Cons x scanned)
  obtain c i where x: "x = (c, i)" by (cases x)
  obtain ret' where cb: "callback B c i ret = (ret', None)"
    using callback_no_error [of B c i ret] by (cases "callback B c i ret") auto
  have "configs (x # scanned) = ConfigFile c i # configs scanned"
    by (simp add: configs_def x)
  then show ?case using Cons.IH [of ret'] by (simp add: cb)
qed

lemma walk_configs:
  "snd (OperateOnCIOperatorConfigDir (configs scanned) (callback B) ret) = None \<and>
   pairs (fst (OperateOnCIOperatorConfigDir (configs scanned) (callback B) ret)) =
     pairs ret \<union> qualifying_pairs B scanned"
proof (induction scanned arbitrary: ret)
  case Nil
  show ?case by (simp add: configs_def qualifying_pairs_Nil)
next
  case (Cons x scanned)
  obtain c i where x: "x = (c, i)" by (cases x)
  obtain ret' where cb: "callback B c i ret = (ret', None)"
    using callback_no_error [of B c i ret] by (cases "callback B c i ret") auto
  have ret': "pairs ret' = pairs ret \<union> (if B c then {(Org i, Repo i)} else {})"
    using pairs_callback [of B c i ret] by (simp add: cb)
  have step: "OperateOnCIOperatorConfigDir (configs (x # scanned)) (callback B) ret =
      OperateOnCIOperatorConfigDir (configs scanned) (callback B) ret'"
    by (simp add: configs_def x cb)
  have q: "qualifying_pairs B (x # scanned) =
      (if B c then {(Org i, Repo i)} else {}) \<union> qualifying_pairs B scanned"
    by (simp add: x qualifying_pairs_Cons)
  show ?case
    unfolding step q using Cons.IH [of ret'] ret' by auto
qed

lemma getReposForPrivateOrg_configs:
  "\<exists>ret. getReposForPrivateOrg B (configs scanned) whitelist = (ret, None) \<and>
     pairs ret = whitelist_pairs whitelist \<union> qualifying_pairs B scanned"
proof -
  let ?ret = "whitelist_orgs whitelist Map.empty"
  let ?walk = "OperateOnCIOperatorConfigDir (configs scanned) (callback B) ?ret"
  have w: "snd ?walk = None" "pairs (fst ?walk) = pairs ?ret \<union> qualifying_pairs B scanned"
    using walk_configs [of scanned B ?ret] by simp_all
  have r: "pairs ?ret = whitelist_pairs whitelist"
    by (simp add: pairs_whitelist_orgs pairs_empty)
  obtain ret' where walk: "?walk = (ret', None)"
    using w(1) by (cases ?walk) auto
  have "getReposForPrivateOrg B (configs scanned) whitelist = (ret', None)"
    by (simp add: getReposForPrivateOrg_def walk)
  then show ?thesis using w(2) r walk by simp
qed

text \<open>
  C1. For every whitelist and every list of scanned build configurations (a walk that
  meets no failure), getReposForPrivateOrg returns no error and a map whose org/repo
  pairs are exactly the whitelist's pairs together with the pairs of the scanned
  configurations that build official images. The values of the map are sets, so a
  repository name is held at most once per organization.
\<close>

theorem getReposForPrivateOrg_union:
  "snd (getReposForPrivateOrg B (configs scanned) whitelist) = None \<and>
   pairs (fst (getReposForPrivateOrg B (configs scanned) whitelist)) =
     whitelist_pairs whitelist \<union> qualifying_pairs B scanned"
proof -
  obtain ret where
    "getReposForPrivateOrg B (configs scanned) whitelist = (ret, None)" and
    "pairs ret = whitelist_pairs whitelist \<union> qualifying_pairs B scanned"
    using getReposForPrivateOrg_configs by blast
  then show ?thesis by simp
qed

text \<open>
  C4, as the claim states it, fails: when the walk fails, getReposForPrivateOrg returns
  the wrapped error together with the map as it stands, not an empty result. Here the
  walk parses one promoting configuration, then fails; the map returned with the error
  holds the whitelisted repository and the repository scanned before the failure.
\<close>

theorem getReposForPrivateOrg_failure_returns_partial_map:
  "snd (getReposForPrivateOrg promotes
          [ConfigFile True origin_master, Failure (errors_New ''unmarshal failed''),
           ConfigFile True installer_master]
          [(''orgA'', [''repo1''])]) =
     Some (Errorf ''error while operating in ci-operator configuration files: ''
             (errors_New ''unmarshal failed'')) \<and>
   fst (getReposForPrivateOrg promotes
          [ConfigFile True origin_master, Failure (errors_New ''unmarshal failed''),
           ConfigFile True installer_master]
          [(''orgA'', [''repo1''])]) ''orgA'' = Some {''repo1''} \<and>
   fst (getReposForPrivateOrg promotes
          [ConfigFile True origin_master, Failure (errors_New ''unmarshal failed''),
           ConfigFile True installer_master]
          [(''orgA'', [''repo1''])]) ''openshift'' = Some {''origin''}"
  by (simp add: getReposForPrivateOrg_def callback_def whitelist_insert_def promotes_def
      origin_master_def)

text \<open>
  C4, amended. When the walk fails after parsing the files of \<open>scanned\<close>,
  getReposForPrivateOrg stops there (what follows the failure is not visited) and
  returns the cause wrapped in a descriptive error, together with the map built so far:
  its pairs are the whitelist's pairs and the qualifying pairs of the files parsed
  before the failure.
\<close>

theorem getReposForPrivateOrg_failure:
  "getReposForPrivateOrg B (configs scanned @ Failure err # rest) whitelist =
     (fst (getReposForPrivateOrg B (configs scanned) whitelist),
      Some (Errorf ''error while operating in ci-operator configuration files: '' err)) \<and>
   pairs (fst (getReposForPrivateOrg B (configs scanned @ Failure err # rest) whitelist)) =
     whitelist_pairs whitelist \<union> qualifying_pairs B scanned"
proof -
  let ?ret = "whitelist_orgs whitelist Map.empty"
  let ?walk = "OperateOnCIOperatorConfigDir (configs scanned) (callback B) ?ret"
  have w: "snd ?walk = None" "pairs (fst ?walk) = pairs ?ret \<union> qualifying_pairs B scanned"
    using walk_configs [of scanned B ?ret] by simp_all
  have r: "pairs ?ret = whitelist_pairs whitelist"
    by (simp add: pairs_whitelist_orgs pairs_empty)
  obtain ret' where walk: "?walk = (ret', None)"
    using w(1) by (cases ?walk) auto
  have ok: "getReposForPrivateOrg B (configs scanned) whitelist = (ret', None)"
    by (simp add: getReposForPrivateOrg_def walk)
  have "OperateOnCIOperatorConfigDir (configs scanned @ Failure err # rest) (callback B) ?ret =
      (ret', Some err)"
    by (simp add: walk_configs_append walk)
  then have "getReposForPrivateOrg B (configs scanned @ Failure err # rest) whitelist =
      (ret', Some (Errorf ''error while operating in ci-operator configuration files: '' err))"
    by (simp add: getReposForPrivateOrg_def)
  then show ?thesis using ok w(2) r walk by simp
qed

text \<open>
  C6, as the claim states it, fails: a repository has one configuration file per
  branch, and the pair of a configuration that does not build official images is in the
  result when another configuration of the same repository does, without being
  whitelisted.
\<close>

theorem non_promoting_config_counterexample:
  "(False, origin_release) \<in> set [(True, origin_master), (False, origin_release)] \<and>
   \<not> promotes False \<and>
   (Org origin_release, Repo origin_release) \<notin> whitelist_pairs [] \<and>
   (Org origin_release, Repo origin_release) \<in>
     pairs (fst (getReposForPrivateOrg promotes
                   (configs [(True, origin_master), (False, origin_release)]) []))"
proof -
  obtain ret where
    "getReposForPrivateOrg promotes (configs [(True, origin_master), (False, origin_release)]) [] =
       (ret, None)"
    and "pairs ret = whitelist_pairs [] \<union>
          qualifying_pairs promotes [(True, origin_master), (False, origin_release)]"
    using getReposForPrivateOrg_configs by blast
  then show ?thesis
    by (simp add: whitelist_pairs_Nil qualifying_pairs_Cons qualifying_pairs_Nil promotes_def
        origin_master_def origin_release_def)
qed

text \<open>
  C6, amended. The pair of a scanned configuration that does not build official images
  is absent from the result unless it is whitelisted or another scanned configuration
  with the same organization and repository builds official images.
\<close>

theorem non_promoting_config_absent:
  assumes "(c, i) \<in> set scanned" and "\<not> B c"
    and "(Org i, Repo i) \<notin> whitelist_pairs whitelist"
    and "\<forall>(c', i') \<in> set scanned. B c' \<longrightarrow> Org i' \<noteq> Org i \<or> Repo i' \<noteq> Repo i"
  shows "(Org i, Repo i) \<notin> pairs (fst (getReposForPrivateOrg B (configs scanned) whitelist))"
proof -
  have "(Org i, Repo i) \<notin> qualifying_pairs B scanned"
    using assms(4) by (auto simp: qualifying_pairs_def)
  moreover obtain ret where
    "getReposForPrivateOrg B (configs scanned) whitelist = (ret, None)"
    and "pairs ret = whitelist_pairs whitelist \<union> qualifying_pairs B scanned"
    using getReposForPrivateOrg_configs by blast
  ultimately show ?thesis using assms(3) by simp
qed

theorem non_promoting_config_absent_witness:
  "(Org origin_release, Repo origin_release) \<notin>
     pairs (fst (getReposForPrivateOrg promotes
                   (configs [(True, installer_master), (False, origin_release)]) [(''orgA'', [''repo1''])]))"
proof -
  have 1: "(False, origin_release) \<in> set [(True, installer_master), (False, origin_release)]"
    by simp
  have 2: "\<not> promotes False" by (simp add: promotes_def)
  have 3: "(Org origin_release, Repo origin_release) \<notin> whitelist_pairs [(''orgA'', [''repo1''])]"
    by (simp add: whitelist_pairs_def origin_release_def)
  have 4: "\<forall>(c', i') \<in> set [(True, installer_master), (False, origin_release)].
             promotes c' \<longrightarrow> Org i' \<noteq> Org origin_release \<or> Repo i' \<noteq> Repo origin_release"
    by (simp add: promotes_def installer_master_def origin_release_def)
  show ?thesis by (rule non_promoting_config_absent [OF 1 2 3 4])
qed

subsection \<open>Properties of the fetcher\<close>

lemma returned_Nil: "returned gc [] = {}"
  by (simp add: returned_def)

lemma returned_Cons:
  "returned gc ((orgName, repo) # rest) =
     (case gc orgName repo of Inl err \<Rightarrow> {} | Inr fullRepo \<Rightarrow> {fullRepo}) \<union> returned gc rest"
  by (auto simp: returned_def split: sum.splits)

lemma loop_Inr:
  "generateRepositories_loop gc prune visits acc = Inr m \<Longrightarrow>
     dom m = dom acc \<union> Name ` returned gc visits \<and>
     (\<forall>name stored. m name = Some stored \<longrightarrow>
        acc name = Some stored \<or>
        (\<exists>fullRepo \<in> returned gc visits. Name fullRepo = name \<and> stored = prune (copied fullRepo)))"
proof (induction visits arbitrary: acc)
  case Nil
  then show ?case by (simp add: returned_Nil)
next
  case (Cons visit rest)
  obtain orgName repo where visit: "visit = (orgName, repo)" by (cases visit)
  from Cons.prems obtain fullRepo where
    ok: "gc orgName repo = Inr fullRepo" and
    rest: "generateRepositories_loop gc prune rest (acc(Name fullRepo \<mapsto> prune (copied fullRepo))) = Inr m"
    by (auto simp: visit split: sum.splits)
  have r: "returned gc (visit # rest) = insert fullRepo (returned gc rest)"
    by (simp add: visit returned_Cons ok)
  from Cons.IH [OF rest] show ?case
    unfolding r by (auto split: if_splits)
qed

lemma loop_all_succeed:
  "generateRepositories_loop gc prune visits acc = Inr m \<Longrightarrow> (orgName, repo) \<in> set visits \<Longrightarrow>
     \<exists>fullRepo. gc orgName repo = Inr fullRepo"
  by (induction visits arbitrary: acc) (auto split: sum.splits)

lemma loop_fails:
  "(orgName, repo) \<in> set visits \<Longrightarrow> gc orgName repo = Inl err \<Longrightarrow>
     \<exists>err'. generateRepositories_loop gc prune visits acc = Inl (Fatal ''couldn't get repo details'' err')"
  by (induction visits arbitrary: acc) (auto split: sum.splits)

text \<open>
  C8. When generateRepositories returns, the keys of its result are exactly the names
  the lookups returned (\<^verbatim>\<open>fullRepo.Name\<close>, whatever name was queried), and every
  stored record is the pruned copy of the description, homepage, private flag,
  issues/projects/wiki flags, merge-strategy flags, archived flag and default branch of
  a lookup's answer with that name.
\<close>

theorem generateRepositories_keys_and_records:
  assumes "generateRepositories gc prune order orgRepos = Inr peribolosRepos"
  shows "dom peribolosRepos =
           {Name fullRepo | fullRepo orgName repo.
              (orgName, repo) \<in> set (order orgRepos) \<and> gc orgName repo = Inr fullRepo} \<and>
         (\<forall>name stored. peribolosRepos name = Some stored \<longrightarrow>
            (\<exists>fullRepo orgName repo.
               (orgName, repo) \<in> set (order orgRepos) \<and> gc orgName repo = Inr fullRepo \<and>
               Name fullRepo = name \<and>
               stored = prune
                 \<lparr>Repo_Description = Some (Description fullRepo),
                  Repo_HomePage = Some (Homepage fullRepo),
                  Repo_Private = Some (Private fullRepo),
                  Repo_HasIssues = Some (HasIssues fullRepo),
                  Repo_HasProjects = Some (HasProjects fullRepo),
                  Repo_HasWiki = Some (HasWiki fullRepo),
                  Repo_AllowMergeCommit = Some (AllowMergeCommit fullRepo),
                  Repo_AllowSquashMerge = Some (AllowSquashMerge fullRepo),
                  Repo_AllowRebaseMerge = Some (AllowRebaseMerge fullRepo),
                  Repo_Archived = Some (Archived fullRepo),
                  Repo_DefaultBranch = Some (DefaultBranch fullRepo)\<rparr>))"
proof -
  from assms have loop:
    "generateRepositories_loop gc prune (order orgRepos) Map.empty = Inr peribolosRepos"
    by (simp add: generateRepositories_def)
  from loop_Inr [OF loop] have
    d: "dom peribolosRepos = Name ` returned gc (order orgRepos)" and
    r: "\<forall>name stored. peribolosRepos name = Some stored \<longrightarrow>
          (\<exists>fullRepo \<in> returned gc (order orgRepos).
             Name fullRepo = name \<and> stored = prune (copied fullRepo))"
    by simp_all
  have "dom peribolosRepos =
          {Name fullRepo | fullRepo orgName repo.
             (orgName, repo) \<in> set (order orgRepos) \<and> gc orgName repo = Inr fullRepo}"
    unfolding d returned_def by blast
  moreover have "\<exists>fullRepo orgName repo.
      (orgName, repo) \<in> set (order orgRepos) \<and> gc orgName repo = Inr fullRepo \<and>
      Name fullRepo = name \<and> stored = prune (copied fullRepo)"
    if "peribolosRepos name = Some stored" for name stored
    using r that unfolding returned_def by blast
  ultimately show ?thesis by blast
qed

theorem generateRepositories_keys_and_records_witness:
  "\<exists>peribolosRepos.
     generateRepositories GetRepo_repo1 (PruneRepoDefaults example_defaults) visit_old_name
       [''orgA'' \<mapsto> {''old-name''}] = Inr peribolosRepos \<and>
     dom peribolosRepos = {''repo1''} \<and>
     peribolosRepos ''repo1'' =
       Some \<lparr>Repo_Description = Some ''x'', Repo_HomePage = None, Repo_Private = Some True,
             Repo_HasIssues = None, Repo_HasProjects = Some True, Repo_HasWiki = None,
             Repo_AllowMergeCommit = None, Repo_AllowSquashMerge = None,
             Repo_AllowRebaseMerge = None, Repo_Archived = None, Repo_DefaultBranch = None\<rparr>"
proof -
  obtain peribolosRepos where gen:
    "generateRepositories GetRepo_repo1 (PruneRepoDefaults example_defaults) visit_old_name
       [''orgA'' \<mapsto> {''old-name''}] = Inr peribolosRepos"
    by (simp add: generateRepositories_def visit_old_name_def GetRepo_repo1_def)
  have d: "dom peribolosRepos = {''repo1''}"
    using generateRepositories_keys_and_records [OF gen]
    by (auto simp: visit_old_name_def GetRepo_repo1_def repo1_def)
  then have "''repo1'' \<in> dom peribolosRepos" by (simp only: insertI1)
  then obtain stored where s: "peribolosRepos ''repo1'' = Some stored" by (auto simp only: dom_def mem_Collect_eq)
  from generateRepositories_keys_and_records [OF gen] s obtain fullRepo orgName repo where
    "GetRepo_repo1 orgName repo = Inr fullRepo" and
    st: "stored = PruneRepoDefaults example_defaults
      \<lparr>Repo_Description = Some (Description fullRepo),
       Repo_HomePage = Some (Homepage fullRepo),
       Repo_Private = Some (Private fullRepo),
       Repo_HasIssues = Some (HasIssues fullRepo),
       Repo_HasProjects = Some (HasProjects fullRepo),
       Repo_HasWiki = Some (HasWiki fullRepo),
       Repo_AllowMergeCommit = Some (AllowMergeCommit fullRepo),
       Repo_AllowSquashMerge = Some (AllowSquashMerge fullRepo),
       Repo_AllowRebaseMerge = Some (AllowRebaseMerge fullRepo),
       Repo_Archived = Some (Archived fullRepo),
       Repo_DefaultBranch = Some (DefaultBranch fullRepo)\<rparr>"
    by blast
  then have "fullRepo = repo1" by (simp add: GetRepo_repo1_def)
  with st have "stored = \<lparr>Repo_Description = Some ''x'', Repo_HomePage = None, Repo_Private = Some True,
             Repo_HasIssues = None, Repo_HasProjects = Some True, Repo_HasWiki = None,
             Repo_AllowMergeCommit = None, Repo_AllowSquashMerge = None,
             Repo_AllowRebaseMerge = None, Repo_Archived = None, Repo_DefaultBranch = None\<rparr>"
    by (simp add: repo1_def PruneRepoDefaults_def prune_field_def example_defaults_def)
  with gen d s show ?thesis by simp
qed

text \<open>The loop over a sequence of visits is the loop over its parts, one after the other.\<close>

lemma loop_append:
  "generateRepositories_loop gc prune (before @ rest) acc = Inr m \<Longrightarrow>
     \<exists>acc'. generateRepositories_loop gc prune before acc = Inr acc' \<and>
            generateRepositories_loop gc prune rest acc' = Inr m"
proof (induction before arbitrary: acc)
  case Nil
  then show ?case by simp
next
  case (Cons visit before)
  obtain orgName repo where visit: "visit = (orgName, repo)" by (cases visit)
  from Cons.prems obtain fullRepo where
    ok: "gc orgName repo = Inr fullRepo" and
    rest: "generateRepositories_loop gc prune (before @ rest)
             (acc(Name fullRepo \<mapsto> prune (copied fullRepo))) = Inr m"
    by (auto simp: visit split: sum.splits)
  have step: "generateRepositories_loop gc prune (visit # before) acc =
      generateRepositories_loop gc prune before (acc(Name fullRepo \<mapsto> prune (copied fullRepo)))"
    by (simp add: visit ok)
  from Cons.IH [OF rest] show ?case unfolding step .
qed

text \<open>Visits that return other names leave the entry of a name as it was.\<close>

lemma loop_untouched:
  "generateRepositories_loop gc prune visits acc = Inr m \<Longrightarrow>
   \<forall>(orgName, repo) \<in> set visits. \<forall>fullRepo. gc orgName repo = Inr fullRepo \<longrightarrow> Name fullRepo \<noteq> name \<Longrightarrow>
   m name = acc name"
proof (induction visits arbitrary: acc)
  case Nil
  then show ?case by simp
next
  case (Cons visit rest)
  obtain orgName repo where visit: "visit = (orgName, repo)" by (cases visit)
  from Cons.prems(1) obtain fullRepo where
    ok: "gc orgName repo = Inr fullRepo" and
    rest: "generateRepositories_loop gc prune rest
             (acc(Name fullRepo \<mapsto> prune (copied fullRepo))) = Inr m"
    by (auto simp: visit split: sum.splits)
  have other: "Name fullRepo \<noteq> name" using Cons.prems(2) ok by (simp add: visit)
  have "\<forall>(orgName, repo) \<in> set rest. \<forall>fullRepo. gc orgName repo = Inr fullRepo \<longrightarrow> Name fullRepo \<noteq> name"
    using Cons.prems(2) by simp
  from Cons.IH [OF rest this] other show ?case by simp
qed

text \<open>The last visit that returns a name decides the record stored under it.\<close>

lemma loop_last_wins:
  assumes loop: "generateRepositories_loop gc prune (before @ (orgName, repo) # after) acc = Inr m"
    and ok: "gc orgName repo = Inr winner"
    and later: "\<forall>(orgName', repo') \<in> set after. \<forall>fullRepo. gc orgName' repo' = Inr fullRepo \<longrightarrow>
                 Name fullRepo \<noteq> Name winner"
  shows "m (Name winner) = Some (prune (copied winner))"
proof -
  from loop_append [OF loop] obtain acc' where
    "generateRepositories_loop gc prune ((orgName, repo) # after) acc' = Inr m" by blast
  with ok have "generateRepositories_loop gc prune after
      (acc'(Name winner \<mapsto> prune (copied winner))) = Inr m" by simp
  from loop_untouched [OF this later] show ?thesis by simp
qed

lemma last_visit_with_name:
  assumes "(orgName1, repoName1) \<in> set visits" and "gc orgName1 repoName1 = Inr fullRepo1"
  shows "\<exists>before orgName repo after winner.
           visits = before @ (orgName, repo) # after \<and> gc orgName repo = Inr winner \<and>
           Name winner = Name fullRepo1 \<and>
           (\<forall>(orgName', repo') \<in> set after. \<forall>fullRepo. gc orgName' repo' = Inr fullRepo \<longrightarrow>
              Name fullRepo \<noteq> Name fullRepo1)"
proof -
  let ?P = "\<lambda>visit. \<exists>fullRepo. gc (fst visit) (snd visit) = Inr fullRepo \<and> Name fullRepo = Name fullRepo1"
  have "\<exists>visit \<in> set visits. ?P visit" using assms by force
  from split_list_last_prop [OF this] obtain before visit after where
    s: "visits = before @ visit # after" and p: "?P visit" and n: "\<forall>v \<in> set after. \<not> ?P v"
    by blast
  from p obtain winner where w: "gc (fst visit) (snd visit) = Inr winner" "Name winner = Name fullRepo1"
    by blast
  have "visits = before @ (fst visit, snd visit) # after" using s by simp
  moreover have "\<forall>(orgName', repo') \<in> set after. \<forall>fullRepo. gc orgName' repo' = Inr fullRepo \<longrightarrow>
              Name fullRepo \<noteq> Name fullRepo1"
    using n by force
  ultimately show ?thesis using w by blast
qed

lemma card_image_less:
  assumes "finite A" "p \<in> A" "q \<in> A" "p \<noteq> q" "f p = f q"
  shows "card (f ` A) < card A"
proof -
  have "\<not> inj_on f A" using assms by (auto simp: inj_on_def)
  then have "card (f ` A) \<noteq> card A" using eq_card_imp_inj_on [OF assms(1)] by blast
  moreover have "card (f ` A) \<le> card A" by (rule card_image_le [OF assms(1)])
  ultimately show ?thesis by simp
qed

text \<open>
  C10. The result is keyed by the returned name alone: when two distinct pairs of the
  OrgRepoSet yield metadata with the same name, the result has fewer entries than
  pairs were fetched, and the shared name holds one record only, the pruned copy of
  what the last visit returning that name received; the records of the earlier visits
  with that name are overwritten.
\<close>

theorem generateRepositories_name_collision:
  assumes gen: "generateRepositories gc prune order orgRepos = Inr peribolosRepos"
    and order: "ranges_over (order orgRepos) orgRepos"
    and p: "(orgName1, repoName1) \<in> pairs orgRepos" and q: "(orgName2, repoName2) \<in> pairs orgRepos"
    and ne: "(orgName1, repoName1) \<noteq> (orgName2, repoName2)"
    and r1: "gc orgName1 repoName1 = Inr fullRepo1" and r2: "gc orgName2 repoName2 = Inr fullRepo2"
    and same: "Name fullRepo1 = Name fullRepo2"
  shows "finite (dom peribolosRepos) \<and> card (dom peribolosRepos) < length (order orgRepos) \<and>
         (\<exists>before orgName repo after winner.
            order orgRepos = before @ (orgName, repo) # after \<and>
            gc orgName repo = Inr winner \<and> Name winner = Name fullRepo1 \<and>
            (\<forall>(orgName', repo') \<in> set after. \<forall>fullRepo. gc orgName' repo' = Inr fullRepo \<longrightarrow>
               Name fullRepo \<noteq> Name fullRepo1) \<and>
            peribolosRepos (Name fullRepo1) = Some (prune
              \<lparr>Repo_Description = Some (Description winner),
               Repo_HomePage = Some (Homepage winner),
               Repo_Private = Some (Private winner),
               Repo_HasIssues = Some (HasIssues winner),
               Repo_HasProjects = Some (HasProjects winner),
               Repo_HasWiki = Some (HasWiki winner),
               Repo_AllowMergeCommit = Some (AllowMergeCommit winner),
               Repo_AllowSquashMerge = Some (AllowSquashMerge winner),
               Repo_AllowRebaseMerge = Some (AllowRebaseMerge winner),
               Repo_Archived = Some (Archived winner),
               Repo_DefaultBranch = Some (DefaultBranch winner)\<rparr>))"
proof -
  let ?visits = "order orgRepos"
  let ?name = "\<lambda>(orgName, repo). case gc orgName repo of Inr fullRepo \<Rightarrow> Name fullRepo | Inl err \<Rightarrow> []"
  from gen have loop:
    "generateRepositories_loop gc prune ?visits Map.empty = Inr peribolosRepos"
    by (simp add: generateRepositories_def)
  have dom: "dom peribolosRepos = Name ` returned gc ?visits"
    using loop_Inr [OF loop] by simp
  have "Name ` returned gc ?visits = ?name ` set ?visits"
  proof
    show "Name ` returned gc ?visits \<subseteq> ?name ` set ?visits"
      by (force simp: returned_def)
    show "?name ` set ?visits \<subseteq> Name ` returned gc ?visits"
    proof
      fix n assume "n \<in> ?name ` set ?visits"
      then obtain orgName repo where v: "(orgName, repo) \<in> set ?visits" and n: "n = ?name (orgName, repo)"
        by auto
      from loop_all_succeed [OF loop v] obtain fullRepo where "gc orgName repo = Inr fullRepo" ..
      with v n show "n \<in> Name ` returned gc ?visits"
        by (force simp: returned_def)
    qed
  qed
  with dom have img: "dom peribolosRepos = ?name ` set ?visits" by simp
  have mem: "(orgName1, repoName1) \<in> set ?visits" "(orgName2, repoName2) \<in> set ?visits"
    using order p q by (simp_all add: ranges_over_def)
  have eq: "?name (orgName1, repoName1) = ?name (orgName2, repoName2)"
    using r1 r2 same by simp
  have "card (?name ` set ?visits) < card (set ?visits)"
    by (rule card_image_less [OF _ mem ne eq]) simp
  moreover have "card (set ?visits) = length ?visits"
  proof (rule distinct_card)
    show "distinct ?visits" using order by (simp add: ranges_over_def)
  qed
  ultimately have fewer: "finite (dom peribolosRepos) \<and> card (dom peribolosRepos) < length ?visits"
    by (simp add: img)
  from last_visit_with_name [where gc = gc and ?orgName1.0 = orgName1 and ?repoName1.0 = repoName1,
      OF mem(1) r1]
  obtain before orgName repo after winner where
    s: "?visits = before @ (orgName, repo) # after" and w: "gc orgName repo = Inr winner" and
    n: "Name winner = Name fullRepo1" and
    l: "\<forall>(orgName', repo') \<in> set after. \<forall>fullRepo. gc orgName' repo' = Inr fullRepo \<longrightarrow>
              Name fullRepo \<noteq> Name fullRepo1"
    by blast
  have "peribolosRepos (Name winner) = Some (prune (copied winner))"
    using loop_last_wins [OF loop [unfolded s] w] l n by simp
  then have stored: "peribolosRepos (Name fullRepo1) = Some (prune (copied winner))"
    by (simp only: n)
  from s w n l stored have "\<exists>before orgName repo after winner.
      ?visits = before @ (orgName, repo) # after \<and>
      gc orgName repo = Inr winner \<and> Name winner = Name fullRepo1 \<and>
      (\<forall>(orgName', repo') \<in> set after. \<forall>fullRepo. gc orgName' repo' = Inr fullRepo \<longrightarrow>
         Name fullRepo \<noteq> Name fullRepo1) \<and>
      peribolosRepos (Name fullRepo1) = Some (prune (copied winner))"
    by blast
  with fewer show ?thesis by (simp only: simp_thms)
qed

theorem generateRepositories_name_collision_witness:
  "\<exists>peribolosRepos.
     generateRepositories GetRepo_by_name (PruneRepoDefaults example_defaults) visit_common
       common_orgRepos = Inr peribolosRepos \<and>
     length (visit_common common_orgRepos) = 2 \<and> card (dom peribolosRepos) < 2 \<and>
     peribolosRepos ''common'' =
       Some \<lparr>Repo_Description = Some ''orgB'', Repo_HomePage = None, Repo_Private = Some True,
             Repo_HasIssues = None, Repo_HasProjects = Some True, Repo_HasWiki = None,
             Repo_AllowMergeCommit = None, Repo_AllowSquashMerge = None,
             Repo_AllowRebaseMerge = None, Repo_Archived = None, Repo_DefaultBranch = None\<rparr>"
proof -
  let ?visits = "visit_common common_orgRepos"
  obtain peribolosRepos where gen:
    "generateRepositories GetRepo_by_name (PruneRepoDefaults example_defaults) visit_common
       common_orgRepos = Inr peribolosRepos"
    by (simp add: generateRepositories_def visit_common_def GetRepo_by_name_def)
  have order: "ranges_over ?visits common_orgRepos"
    by (auto simp: ranges_over_def visit_common_def common_orgRepos_def pairs_def split: if_splits)
  have p: "(''orgA'', ''common'') \<in> pairs common_orgRepos"
    and q: "(''orgB'', ''common'') \<in> pairs common_orgRepos"
    by (simp_all add: pairs_def common_orgRepos_def)
  have ne: "(''orgA'', ''common'') \<noteq> (''orgB'', ''common'')" by simp
  have r1: "GetRepo_by_name ''orgA'' ''common'' = Inr (repo1\<lparr>Name := ''common'', Description := ''orgA''\<rparr>)"
    and r2: "GetRepo_by_name ''orgB'' ''common'' = Inr (repo1\<lparr>Name := ''common'', Description := ''orgB''\<rparr>)"
    by (simp_all add: GetRepo_by_name_def)
  have same: "Name (repo1\<lparr>Name := ''common'', Description := ''orgA''\<rparr>) =
      Name (repo1\<lparr>Name := ''common'', Description := ''orgB''\<rparr>)"
    by simp
  from generateRepositories_name_collision [OF gen order p q ne r1 r2 same]
  obtain before orgName repo after winner where
    fewer: "card (dom peribolosRepos) < length ?visits" and
    s: "?visits = before @ (orgName, repo) # after" and
    w: "GetRepo_by_name orgName repo = Inr winner" and
    l: "\<forall>(orgName', repo') \<in> set after. \<forall>fullRepo.
          GetRepo_by_name orgName' repo' = Inr fullRepo \<longrightarrow> Name fullRepo \<noteq> ''common''" and
    stored: "peribolosRepos ''common'' = Some (PruneRepoDefaults example_defaults (copied winner))"
    by auto
  have "after = []"
  proof (rule ccontr)
    assume "after \<noteq> []"
    then obtain orgName' repo' where v: "(orgName', repo') \<in> set after"
      by (cases after) auto
    then have "(orgName', repo') \<in> set ?visits" by (simp add: s)
    then have "repo' = ''common''" by (auto simp: visit_common_def)
    then have "GetRepo_by_name orgName' repo' =
        Inr (repo1\<lparr>Name := ''common'', Description := orgName'\<rparr>)"
      by (simp add: GetRepo_by_name_def)
    with l v show False by auto
  qed
  with s have "last ?visits = (orgName, repo)" by simp
  then have "orgName = ''orgB''" "repo = ''common''" by (simp_all add: visit_common_def)
  with w have "winner = repo1\<lparr>Name := ''common'', Description := ''orgB''\<rparr>"
    by (simp add: GetRepo_by_name_def)
  with stored have "peribolosRepos ''common'' =
       Some \<lparr>Repo_Description = Some ''orgB'', Repo_HomePage = None, Repo_Private = Some True,
             Repo_HasIssues = None, Repo_HasProjects = Some True, Repo_HasWiki = None,
             Repo_AllowMergeCommit = None, Repo_AllowSquashMerge = None,
             Repo_AllowRebaseMerge = None, Repo_Archived = None, Repo_DefaultBranch = None\<rparr>"
    by (simp add: repo1_def PruneRepoDefaults_def prune_field_def example_defaults_def)
  with gen fewer show ?thesis by (simp add: visit_common_def)
qed

lemma prune_field_idempotent: "prune_field dflt (prune_field dflt v) = prune_field dflt v"
  by (simp add: prune_field_def)

text \<open>
  C7. Pruning is idempotent: pruning an already pruned record yields the same record,
  whatever the table of defaults.
\<close>

theorem PruneRepoDefaults_idempotent:
  "PruneRepoDefaults defaults (PruneRepoDefaults defaults repo) = PruneRepoDefaults defaults repo"
  by (simp add: PruneRepoDefaults_def prune_field_idempotent)

subsection \<open>Properties of the merger\<close>

text \<open>
  C3. The merge step either panics, which happens exactly when the document has no
  organization map at all, or yields a document in which every organization entry other
  than the destination's is as it was.
\<close>

theorem merge_step_frame:
  "(case merge_step document dest peribolosRepos of
      Inl p \<Rightarrow> Orgs document = None
    | Inr merged \<Rightarrow> Orgs document \<noteq> None \<and> (\<forall>key. key \<noteq> dest \<longrightarrow> org_entry merged key = org_entry document key))"
  by (auto simp: merge_step_def org_entry_def Let_def split: option.splits)

theorem merge_step_frame_witness:
  "\<exists>merged. merge_step two_orgs ''orgA'' [''repo1'' \<mapsto> example_defaults] = Inr merged \<and>
     org_entry merged ''orgB'' = org_entry two_orgs ''orgB'' \<and>
     org_entry two_orgs ''orgB'' = Some \<lparr>Repos = [''kept'' \<mapsto> example_defaults], other_fields = Some ()\<rparr>"
proof -
  have ok: "Orgs two_orgs \<noteq> None" by (simp add: two_orgs_def)
  have ne: "''orgB'' \<noteq> ''orgA''" by simp
  have b: "org_entry two_orgs ''orgB'' = Some \<lparr>Repos = [''kept'' \<mapsto> example_defaults], other_fields = Some ()\<rparr>"
    by (simp add: org_entry_def two_orgs_def)
  from merge_step_frame [of two_orgs "''orgA''" "[''repo1'' \<mapsto> example_defaults]"] ok ne b
  show ?thesis by (auto split: sum.splits)
qed

text \<open>
  When the document has an organization map without the destination key, the merge step
  creates the entry: the fetched repositories and no other field set.
\<close>

lemma merge_step_creates:
  "Orgs document = Some orgs \<Longrightarrow> orgs dest = None \<Longrightarrow>
     \<exists>merged. merge_step document dest peribolosRepos = Inr merged \<and>
       org_entry merged dest = Some \<lparr>Repos = peribolosRepos, other_fields = None\<rparr>"
  by (simp add: merge_step_def org_entry_def zero_Config_def)

text \<open>
  For a document without any organization map the destination key is absent, and the
  assignment of line 117 panics.
\<close>

lemma merge_step_nil_Orgs_panics:
  "org_entry \<lparr>Orgs = None\<rparr> ''orgA'' = None \<and>
   merge_step \<lparr>Orgs = None\<rparr> ''orgA'' peribolosRepos = Inl assignment_to_entry_in_nil_map"
  by (simp add: merge_step_def org_entry_def)


text \<open>
  What validateOptions returns: the options with the token path and the whitelist as the
  validators leave them, the reading of the whitelist file if there was one, and the
  aggregate of the errors in the order of lines 59--73.
\<close>

lemma validateOptions_result:
  "validateOptions w opts =
     (opts\<lparr>TokenPath := fst (github_Validate w (TokenPath opts)),
           Whitelist := fst (WhitelistOptions_Validate w (Whitelist opts))\<rparr>,
      (case fst (snd (WhitelistOptions_Validate w (Whitelist opts))) of
         Some path \<Rightarrow> [ReadWhitelist path] | None \<Rightarrow> []),
      NewAggregate
        ((if releaseRepoPath opts = [] then [errors_New ''--release-repo-path is not specified''] else []) @
         (if peribolosConfig opts = [] then [errors_New ''--peribolos-config is not specified''] else []) @
         (if destOrg opts = [] then [errors_New ''--destination-org is not specified''] else []) @
         (case snd (github_Validate w (TokenPath opts)) of Some err \<Rightarrow> [err] | None \<Rightarrow> []) @
         (case snd (snd (WhitelistOptions_Validate w (Whitelist opts))) of
            Some err \<Rightarrow> [err] | None \<Rightarrow> [])))"
  by (simp add: validateOptions_def Let_def split: prod.splits option.splits)

lemma ex_validate:
  "validateOptions empty_document_world example_options =
     (example_options\<lparr>Whitelist := [(''orgA'', [''repo1''])]\<rparr>,
      [ReadWhitelist ''whitelist.yaml''], None)"
  by (simp add: validateOptions_result NewAggregate_def empty_document_world_def example_world_def
      example_options_def)

lemma ex_scan:
  "getReposForPrivateOrg promotes [] [(''orgA'', [''repo1''])] = ([''orgA'' \<mapsto> {''repo1''}], None)"
  by (simp add: getReposForPrivateOrg_def whitelist_insert_def)

text \<open>
  C5, at the failing input. The configuration file is \<^verbatim>\<open>{}\<close>: the document has
  no organization, so the destination key is absent. The run loads the whitelist,
  fetches the whitelisted repository, then panics in the merge step: status 2, no entry
  created, nothing written.
\<close>

theorem main_panics_on_document_without_orgs:
  "org_entry \<lparr>Orgs = None\<rparr> ''orgA'' = (None :: unit org_Config option) \<and>
   main empty_document_world example_options =
     \<lparr>status = 2,
      io_trace = [ReadWhitelist ''whitelist.yaml'', ReadFile ''peribolos.yaml'',
                  SecretStart [''/etc/github/oauth''],
                  WalkConfigDir ''release'', GetRepo ''orgA'' ''repo1'']\<rparr>"
proof -
  have gen: "\<exists>peribolosRepos.
      generateRepositories GetRepo_repo1 (PruneRepoDefaults example_defaults) visit_orgA_repo1
        [''orgA'' \<mapsto> {''repo1''}] = Inr peribolosRepos"
    by (simp add: generateRepositories_def visit_orgA_repo1_def GetRepo_repo1_def)
  then obtain peribolosRepos where g:
      "generateRepositories GetRepo_repo1 (PruneRepoDefaults example_defaults) visit_orgA_repo1
        [''orgA'' \<mapsto> {''repo1''}] = Inr peribolosRepos" ..
  have m: "merge_step \<lparr>Orgs = None\<rparr> ''orgA'' peribolosRepos =
      (Inl assignment_to_entry_in_nil_map :: panic + unit org_FullConfig)"
    by (simp add: merge_step_def)
  have w: "ioutil_ReadFile empty_document_world = (\<lambda>path. Inr ''{}'')"
    "yaml_Unmarshal empty_document_world = (\<lambda>b. Inr \<lparr>Orgs = None\<rparr>)"
    "secretAgent_Start empty_document_world = (\<lambda>paths. None)"
    "github_GitHubClient empty_document_world = Inr GetRepo_repo1"
    "BuildsOfficialImages empty_document_world = promotes"
    "config_dir empty_document_world = (\<lambda>path. [])"
    "range_orgRepos empty_document_world = visit_orgA_repo1"
    "org_PruneRepoDefaults empty_document_world = PruneRepoDefaults example_defaults"
    by (simp_all add: empty_document_world_def example_world_def)
  have o: "Whitelist (example_options\<lparr>Whitelist := [(''orgA'', [''repo1''])]\<rparr>) = [(''orgA'', [''repo1''])]"
    "peribolosConfig (example_options\<lparr>Whitelist := [(''orgA'', [''repo1''])]\<rparr>) = ''peribolos.yaml''"
    "destOrg (example_options\<lparr>Whitelist := [(''orgA'', [''repo1''])]\<rparr>) = ''orgA''"
    "releaseRepoPath (example_options\<lparr>Whitelist := [(''orgA'', [''repo1''])]\<rparr>) = ''release''"
    "TokenPath (example_options\<lparr>Whitelist := [(''orgA'', [''repo1''])]\<rparr>) = ''/etc/github/oauth''"
    by (simp_all add: example_options_def)
  have calls: "GetRepo_calls GetRepo_repo1 (visit_orgA_repo1 [''orgA'' \<mapsto> {''repo1''}]) = [(''orgA'', ''repo1'')]"
    by (simp add: visit_orgA_repo1_def GetRepo_repo1_def)
  have "main empty_document_world example_options =
     \<lparr>status = 2,
      io_trace = [ReadWhitelist ''whitelist.yaml'', ReadFile ''peribolos.yaml'',
                  SecretStart [''/etc/github/oauth''],
                  WalkConfigDir ''release'', GetRepo ''orgA'' ''repo1'']\<rparr>"
    unfolding main_def ex_validate
    by (simp add: w o ex_scan g m calls)
  then show ?thesis by (simp add: org_entry_def)
qed

subsection \<open>Properties of main\<close>

text \<open>
  C9, as the claim states it, fails: the whitelist validator of line 71 runs inside
  validateOptions, before the aggregated error is reported. Here every required option
  is missing and a whitelist file is given: the whitelist file is read, and only then
  the run ends on the missing options.
\<close>

theorem missing_options_reported_after_whitelist_read:
  "releaseRepoPath no_options = [] \<and> peribolosConfig no_options = [] \<and> destOrg no_options = [] \<and>
   main (example_world GetRepo_repo1) no_options =
     \<lparr>status = 1, io_trace = [ReadWhitelist ''whitelist.yaml'']\<rparr>"
  by (simp add: main_def validateOptions_result NewAggregate_def example_world_def no_options_def)

text \<open>
  C9, amended. When a required option is missing, validateOptions returns one
  aggregated error that holds exactly the errors of the missing options, in the order
  release-repo-path, peribolos-config, destination-org, followed by the errors of the
  two external validators; main ends with status 1 before any file or network
  operation of its own, the only operation before the report being the reading of the
  whitelist file by the external whitelist validator, if it does one.
\<close>

theorem validateOptions_reports_all_missing:
  assumes "releaseRepoPath opts = [] \<or> peribolosConfig opts = [] \<or> destOrg opts = []"
  shows "\<exists>validated loaded.
           validateOptions w opts =
             (validated, loaded,
              Some (Aggregate
                ((if releaseRepoPath opts = [] then [errors_New ''--release-repo-path is not specified''] else []) @
                 (if peribolosConfig opts = [] then [errors_New ''--peribolos-config is not specified''] else []) @
                 (if destOrg opts = [] then [errors_New ''--destination-org is not specified''] else []) @
                 (case snd (github_Validate w (TokenPath opts)) of Some err \<Rightarrow> [err] | None \<Rightarrow> []) @
                 (case snd (snd (WhitelistOptions_Validate w (Whitelist opts))) of
                    Some err \<Rightarrow> [err] | None \<Rightarrow> [])))) \<and>
           loaded =
             (case fst (snd (WhitelistOptions_Validate w (Whitelist opts))) of
                Some path \<Rightarrow> [ReadWhitelist path] | None \<Rightarrow> []) \<and>
           main w opts = \<lparr>status = 1, io_trace = loaded\<rparr>"
proof -
  let ?errs =
    "(if releaseRepoPath opts = [] then [errors_New ''--release-repo-path is not specified''] else []) @
     (if peribolosConfig opts = [] then [errors_New ''--peribolos-config is not specified''] else []) @
     (if destOrg opts = [] then [errors_New ''--destination-org is not specified''] else []) @
     (case snd (github_Validate w (TokenPath opts)) of Some err \<Rightarrow> [err] | None \<Rightarrow> []) @
     (case snd (snd (WhitelistOptions_Validate w (Whitelist opts))) of
        Some err \<Rightarrow> [err] | None \<Rightarrow> [])"
  let ?validated = "opts\<lparr>TokenPath := fst (github_Validate w (TokenPath opts)),
           Whitelist := fst (WhitelistOptions_Validate w (Whitelist opts))\<rparr>"
  let ?loaded = "case fst (snd (WhitelistOptions_Validate w (Whitelist opts))) of
         Some path \<Rightarrow> [ReadWhitelist path] | None \<Rightarrow> []"
  have "?errs \<noteq> []" using assms by auto
  then have agg: "NewAggregate ?errs = Some (Aggregate ?errs)"
    by (simp only: NewAggregate_def if_False)
  have v: "validateOptions w opts = (?validated, ?loaded, Some (Aggregate ?errs))"
    by (simp only: validateOptions_result agg)
  have "main w opts = \<lparr>status = 1, io_trace = ?loaded\<rparr>"
    by (simp add: main_def v)
  with v show ?thesis by blast
qed

theorem validateOptions_reports_all_missing_witness:
  "\<exists>validated.
     validateOptions (example_world GetRepo_repo1) no_options =
       (validated, [ReadWhitelist ''whitelist.yaml''],
        Some (Aggregate
          [errors_New ''--release-repo-path is not specified'',
           errors_New ''--peribolos-config is not specified'',
           errors_New ''--destination-org is not specified''])) \<and>
     main (example_world GetRepo_repo1) no_options =
       \<lparr>status = 1, io_trace = [ReadWhitelist ''whitelist.yaml'']\<rparr>"
proof -
  have "releaseRepoPath no_options = [] \<or> peribolosConfig no_options = [] \<or> destOrg no_options = []"
    by (simp add: no_options_def)
  from validateOptions_reports_all_missing [OF this, of "example_world GetRepo_repo1"]
  show ?thesis by (simp add: no_options_def example_world_def)
qed

lemma GetRepo_calls_subset: "set (GetRepo_calls gc visits) \<subseteq> set visits"
  by (induction visits) (auto split: sum.splits)

lemma GetRepo_calls_distinct: "distinct visits \<Longrightarrow> distinct (GetRepo_calls gc visits)"
proof (induction visits)
  case Nil
  show ?case by simp
next
  case (Cons visit rest)
  obtain orgName repo where visit: "visit = (orgName, repo)" by (cases visit)
  from Cons show ?case
    using GetRepo_calls_subset [of gc rest] by (auto simp: visit split: sum.splits)
qed

lemma GetRepo_events_distinct:
  "distinct calls \<Longrightarrow> distinct (map (\<lambda>(orgName, repo). GetRepo orgName repo) calls)"
proof -
  have "inj (\<lambda>(orgName, repo). GetRepo orgName repo)"
    by (rule injI) (simp split: prod.splits)
  then have "inj_on (\<lambda>(orgName, repo). GetRepo orgName repo) (set calls)"
    by (rule inj_on_subset) simp
  then show "distinct calls \<Longrightarrow> ?thesis" by (simp only: distinct_map simp_thms)
qed

lemma GetRepo_events_no_write:
  "filter is_WriteFile (map (\<lambda>(orgName, repo). GetRepo orgName repo) calls) = []"
  by (induction calls) (simp_all split: prod.splits)

lemma GetRepo_events_others:
  "ReadWhitelist path \<notin> set (map (\<lambda>(orgName, repo). GetRepo orgName repo) calls)"
  "ReadFile path \<notin> set (map (\<lambda>(orgName, repo). GetRepo orgName repo) calls)"
  "SecretStart paths \<notin> set (map (\<lambda>(orgName, repo). GetRepo orgName repo) calls)"
  "WalkConfigDir path \<notin> set (map (\<lambda>(orgName, repo). GetRepo orgName repo) calls)"
  by (induction calls) (simp_all split: prod.splits)

lemma validateOptions_io:
  "validateOptions w opts = (validated, loaded, err) \<Longrightarrow>
     loaded = [] \<or> (\<exists>path. loaded = [ReadWhitelist path])"
  by (auto simp: validateOptions_result split: option.splits)

text \<open>
  C2. When the lookup fails for a pair of the OrgRepoSet, the run ends with status 1
  and without any write; no operation, in particular no lookup, is issued twice. The
  OrgRepoSet of a run is built from the options as validation leaves them.
\<close>

theorem lookup_failure_is_fatal:
  assumes validation: "validateOptions w opts = (validated, loaded, invalid)"
    and client: "github_GitHubClient w = Inr gc"
    and scan: "getReposForPrivateOrg (BuildsOfficialImages w) (config_dir w (releaseRepoPath validated))
                 (Whitelist validated) = (orgRepos, scan_err)"
    and order: "ranges_over (range_orgRepos w orgRepos) orgRepos"
    and pair: "(orgName, repo) \<in> pairs orgRepos"
    and fails: "gc orgName repo = Inl err"
  shows "status (main w opts) = 1 \<and> writes (main w opts) = [] \<and> distinct (io_trace (main w opts))"
proof -
  have visited: "(orgName, repo) \<in> set (range_orgRepos w orgRepos)"
    using order pair by (simp add: ranges_over_def)
  obtain err' where fatal:
    "generateRepositories gc (org_PruneRepoDefaults w) (range_orgRepos w) orgRepos =
       Inl (Fatal ''couldn't get repo details'' err')"
    using loop_fails [where gc = gc and orgName = orgName and repo = repo, OF visited fails]
    unfolding generateRepositories_def by blast
  have calls: "distinct (GetRepo_calls gc (range_orgRepos w orgRepos))"
    using order by (simp add: ranges_over_def GetRepo_calls_distinct)
  have loaded: "distinct loaded" "filter is_WriteFile loaded = []"
    "ReadFile path \<notin> set loaded" "SecretStart paths \<notin> set loaded"
    "WalkConfigDir dir \<notin> set loaded"
    "set loaded \<inter> set (map (\<lambda>(orgName, repo). GetRepo orgName repo) calls') = {}"
    for path paths dir calls'
    using validateOptions_io [OF validation] by auto
  have trace: "distinct (loaded @ [ReadFile path, SecretStart paths, WalkConfigDir dir] @
      map (\<lambda>(orgName, repo). GetRepo orgName repo) (GetRepo_calls gc (range_orgRepos w orgRepos)))"
    for path paths dir
    using GetRepo_events_distinct [OF calls] GetRepo_events_others loaded by simp
  show ?thesis
  proof (cases invalid)
    case (Some e)
    with validation loaded show ?thesis by (simp add: main_def writes_def)
  next
    case valid: None
    show ?thesis
    proof (cases "ioutil_ReadFile w (peribolosConfig validated)")
      case (Inl e)
      with validation valid loaded show ?thesis by (simp add: main_def writes_def)
    next
      case read: (Inr b)
      show ?thesis
      proof (cases "yaml_Unmarshal w b")
        case (Inl e)
        with validation valid read loaded show ?thesis by (simp add: main_def writes_def)
      next
        case parsed: (Inr document)
        show ?thesis
        proof (cases "secretAgent_Start w [TokenPath validated]")
          case (Some e)
          with validation valid read parsed loaded show ?thesis by (simp add: main_def writes_def)
        next
          case started: None
          show ?thesis
          proof (cases scan_err)
            case (Some e)
            with validation valid read parsed started client scan loaded show ?thesis
              by (simp add: main_def writes_def)
          next
            case None
            with validation valid read parsed started client scan fatal
            have run: "main w opts =
              \<lparr>status = 1,
               io_trace = loaded @ [ReadFile (peribolosConfig validated), SecretStart [TokenPath validated],
                           WalkConfigDir (releaseRepoPath validated)] @
                 map (\<lambda>(orgName, repo). GetRepo orgName repo)
                   (GetRepo_calls gc (range_orgRepos w orgRepos))\<rparr>"
              by (simp add: main_def)
            show ?thesis
              unfolding run writes_def using trace loaded(2)
              by (simp add: GetRepo_events_no_write del: distinct_append map_append)
          qed
        qed
      qed
    qed
  qed
qed

theorem lookup_failure_is_fatal_witness:
  "status (main (example_world GetRepo_not_found) example_options) = 1 \<and>
   writes (main (example_world GetRepo_not_found) example_options) = [] \<and>
   distinct (io_trace (main (example_world GetRepo_not_found) example_options))"
proof -
  let ?w = "example_world GetRepo_not_found"
  let ?validated = "example_options\<lparr>Whitelist := [(''orgA'', [''repo1''])]\<rparr>"
  let ?orgRepos = "[''orgA'' \<mapsto> {''repo1''}]"
  have 0: "validateOptions ?w example_options = (?validated, [ReadWhitelist ''whitelist.yaml''], None)"
    by (simp add: validateOptions_result NewAggregate_def example_world_def example_options_def)
  have 1: "github_GitHubClient ?w = Inr GetRepo_not_found"
    by (simp add: example_world_def)
  have 2: "getReposForPrivateOrg (BuildsOfficialImages ?w) (config_dir ?w (releaseRepoPath ?validated))
             (Whitelist ?validated) = (?orgRepos, None)"
    by (simp add: example_world_def example_options_def getReposForPrivateOrg_def
        whitelist_insert_def)
  have 3: "ranges_over (range_orgRepos ?w ?orgRepos) ?orgRepos"
    by (auto simp: example_world_def ranges_over_def visit_orgA_repo1_def pairs_def split: if_splits)
  have 4: "(''orgA'', ''repo1'') \<in> pairs ?orgRepos"
    by (simp add: pairs_def)
  have 5: "GetRepo_not_found ''orgA'' ''repo1'' = Inl (errors_New ''404 Not Found'')"
    by (simp add: GetRepo_not_found_def)
  show ?thesis by (rule lookup_failure_is_fatal [OF 0 1 2 3 4 5])
qed

end
